theory Spec2Isabelle
  imports Main "HOL-Library.Word"
begin

section \<open>JavaScript strings\<close>

text \<open>
  A JavaScript string is a sequence of UTF-16 code units; \<open>length\<close>, the regular
  expressions of the form (none carries the \<open>u\<close> flag) and \<open>trim\<close> all work on
  code units.  Field values are modelled as lists of 16-bit words.  The error messages are
  fixed ASCII texts and are kept as HOL strings.
\<close>

type_synonym code_unit = "16 word"
type_synonym jsstring = "code_unit list"

definition js :: "string \<Rightarrow> jsstring" where
  \<comment> \<open>an ASCII literal of the source as a JavaScript string\<close>
  "js s = map of_char s"

definition is_space :: "code_unit \<Rightarrow> bool" where
  \<comment> \<open>ECMAScript WhiteSpace and LineTerminator: what \<open>\s\<close> matches and \<open>trim\<close> strips\<close>
  "is_space c \<longleftrightarrow>
     c \<in> {0x0009, 0x000A, 0x000B, 0x000C, 0x000D, 0x0020, 0x00A0, 0x1680,
          0x2028, 0x2029, 0x202F, 0x205F, 0x3000, 0xFEFF}
     \<or> (0x2000 \<le> c \<and> c \<le> 0x200A)"

definition is_digit :: "code_unit \<Rightarrow> bool" where
  \<comment> \<open>what \<open>\d\<close> matches: the ASCII digits only\<close>
  "is_digit c \<longleftrightarrow> 0x30 \<le> c \<and> c \<le> 0x39"

definition trim :: "jsstring \<Rightarrow> jsstring" where
  \<comment> \<open>\<open>String.prototype.trim\<close>: leading and trailing white space removed\<close>
  "trim s = rev (dropWhile is_space (rev (dropWhile is_space s)))"

text \<open>
  \<open>s.replace(/\s+/g, '')\<close>: scanning from the left, every maximal run of white space is
  replaced by the empty string and every other code unit is kept.
\<close>

function replace_space_runs :: "jsstring \<Rightarrow> jsstring" where
  "replace_space_runs [] = []"
| "replace_space_runs (c # cs) =
     (if is_space c then replace_space_runs (dropWhile is_space cs)
      else c # replace_space_runs cs)"
  by pat_completeness auto
termination
  by (relation "measure length") (auto simp: length_dropWhile_le less_Suc_eq_le)


section \<open>Regular expressions\<close>

text \<open>
  The character classes and the operators that occur in the form's patterns.  A class is
  a list of items, possibly negated: \<open>[^\s@]\<close> is \<open>NoneOf [Space, Lit 0x40]\<close>,
  \<open>[a-z]\<close> is \<open>OneOf [Range 0x61 0x7A]\<close>, \<open>\d\<close> is \<open>OneOf [Digit]\<close>.
\<close>

datatype citem = Lit code_unit | Range code_unit code_unit | Space | Digit

datatype cclass = OneOf "citem list" | NoneOf "citem list"

fun item_has :: "citem \<Rightarrow> code_unit \<Rightarrow> bool" where
  "item_has (Lit a) c \<longleftrightarrow> c = a"
| "item_has (Range a b) c \<longleftrightarrow> a \<le> c \<and> c \<le> b"
| "item_has Space c \<longleftrightarrow> is_space c"
| "item_has Digit c \<longleftrightarrow> is_digit c"

fun class_has :: "cclass \<Rightarrow> code_unit \<Rightarrow> bool" where
  "class_has (OneOf items) c \<longleftrightarrow> list_ex (\<lambda>i. item_has i c) items"
| "class_has (NoneOf items) c \<longleftrightarrow> \<not> list_ex (\<lambda>i. item_has i c) items"

datatype regex =
    RNone
  | REps
  | RCls cclass
  | RAlt regex regex
  | RSeq regex regex
  | RStar regex

definition RPlus :: "regex \<Rightarrow> regex" where
  \<comment> \<open>\<open>r+\<close>\<close>
  "RPlus r = RSeq r (RStar r)"

primrec RExactly :: "nat \<Rightarrow> regex \<Rightarrow> regex" where
  "RExactly 0 r = REps"
| "RExactly (Suc n) r = RSeq r (RExactly n r)"

primrec RAtMost :: "nat \<Rightarrow> regex \<Rightarrow> regex" where
  "RAtMost 0 r = REps"
| "RAtMost (Suc n) r = RAlt REps (RSeq r (RAtMost n r))"

definition RBetween :: "nat \<Rightarrow> nat \<Rightarrow> regex \<Rightarrow> regex" where
  \<comment> \<open>\<open>r{lo,hi}\<close>\<close>
  "RBetween lo hi r = RSeq (RExactly lo r) (RAtMost (hi - lo) r)"

text \<open>Matching by derivatives: \<open>deriv c r\<close> matches what \<open>r\<close> matches after a leading \<open>c\<close>.\<close>

primrec nullable :: "regex \<Rightarrow> bool" where
  "nullable RNone \<longleftrightarrow> False"
| "nullable REps \<longleftrightarrow> True"
| "nullable (RCls k) \<longleftrightarrow> False"
| "nullable (RAlt r s) \<longleftrightarrow> nullable r \<or> nullable s"
| "nullable (RSeq r s) \<longleftrightarrow> nullable r \<and> nullable s"
| "nullable (RStar r) \<longleftrightarrow> True"

primrec deriv :: "code_unit \<Rightarrow> regex \<Rightarrow> regex" where
  "deriv c RNone = RNone"
| "deriv c REps = RNone"
| "deriv c (RCls k) = (if class_has k c then REps else RNone)"
| "deriv c (RAlt r s) = RAlt (deriv c r) (deriv c s)"
| "deriv c (RSeq r s) =
     (if nullable r then RAlt (RSeq (deriv c r) s) (deriv c s) else RSeq (deriv c r) s)"
| "deriv c (RStar r) = RSeq (deriv c r) (RStar r)"

primrec matches :: "regex \<Rightarrow> jsstring \<Rightarrow> bool" where
  "matches r [] \<longleftrightarrow> nullable r"
| "matches r (c # cs) \<longleftrightarrow> matches (deriv c r) cs"

definition any_unit :: regex where
  "any_unit = RCls (NoneOf [])"

definition test_whole :: "regex \<Rightarrow> jsstring \<Rightarrow> bool" where
  \<comment> \<open>\<open>/^r$/.test(s)\<close> (no \<open>m\<close> flag): the whole string matches \<open>r\<close>\<close>
  "test_whole r s \<longleftrightarrow> matches r s"

definition test_within :: "regex \<Rightarrow> jsstring \<Rightarrow> bool" where
  \<comment> \<open>\<open>/r/.test(s)\<close>: some substring matches \<open>r\<close>\<close>
  "test_within r s \<longleftrightarrow> matches (RSeq (RStar any_unit) (RSeq r (RStar any_unit))) s"


section \<open>The validator\<close>

datatype fieldname = Name | Email | Phone | Password

definition not_space_or_at :: cclass where
  \<comment> \<open>\<open>[^\s@]\<close>\<close>
  "not_space_or_at = NoneOf [Space, Lit 0x40]"

definition email_re :: regex where
  \<comment> \<open>\<open>[^\s@]+@[^\s@]+\.[^\s@]+\<close>, between \<open>^\<close> and \<open>$\<close>\<close>
  "email_re =
     RSeq (RPlus (RCls not_space_or_at))
      (RSeq (RCls (OneOf [Lit 0x40]))
        (RSeq (RPlus (RCls not_space_or_at))
          (RSeq (RCls (OneOf [Lit 0x2E]))
            (RPlus (RCls not_space_or_at)))))"

definition phone_re :: regex where
  \<comment> \<open>\<open>\d{10,15}\<close>, between \<open>^\<close> and \<open>$\<close>\<close>
  "phone_re = RBetween 10 15 (RCls (OneOf [Digit]))"

definition lower_cls :: cclass where
  \<comment> \<open>\<open>[a-z]\<close>\<close>
  "lower_cls = OneOf [Range 0x61 0x7A]"

definition upper_cls :: cclass where
  \<comment> \<open>\<open>[A-Z]\<close>\<close>
  "upper_cls = OneOf [Range 0x41 0x5A]"

definition digit_cls :: cclass where
  \<comment> \<open>\<open>\d\<close>\<close>
  "digit_cls = OneOf [Digit]"

definition special_cls :: cclass where
  \<comment> \<open>\<open>[@$!%*?&]\<close>\<close>
  "special_cls = OneOf [Lit 0x40, Lit 0x24, Lit 0x21, Lit 0x25, Lit 0x2A, Lit 0x3F, Lit 0x26]"

fun validate :: "fieldname \<Rightarrow> jsstring \<Rightarrow> string option" where
  "validate Name val =
     (if trim val \<noteq> [] then None else Some ''Name is required.'')"
| "validate Email val =
     (if val = [] then Some ''Email is required.''
      else if \<not> test_whole email_re val then Some ''Invalid email format.''
      else None)"
| "validate Phone val =
     (if val = [] then Some ''Phone number is required.''
      else if \<not> test_whole phone_re (replace_space_runs val)
        then Some ''Phone must be 10 to 15 digits.''
      else None)"
| "validate Password val =
     (if val = [] then Some ''Password is required.''
      else if length val < 8 then Some ''Password must be at least 8 characters long.''
      else if \<not> test_within (RCls lower_cls) val then Some ''Must contain a lowercase letter.''
      else if \<not> test_within (RCls upper_cls) val then Some ''Must contain an uppercase letter.''
      else if \<not> test_within (RCls digit_cls) val then Some ''Must contain a number.''
      else if \<not> test_within (RCls special_cls) val
        then Some ''Must contain a special character (@$!%*?&).''
      else None)"


section \<open>The form component\<close>

text \<open>
  The component keeps five cells of state (\<open>useState\<close>).  \<open>formData\<close> always has the four
  keys of \<open>FormState\<close>, so it is a total function on \<open>fieldname\<close>.  \<open>errors\<close> and
  \<open>touched\<close> are objects whose keys may be absent; a key of \<open>errors\<close> that is present may
  hold \<open>undefined\<close> (\<open>None\<close>), which is what the handlers store for a valid field.
\<close>

record form =
  formData :: "fieldname \<Rightarrow> jsstring"
  errors :: "fieldname \<rightharpoonup> string option"
  touched :: "fieldname \<rightharpoonup> bool"
  showPassword :: bool
  isSubmitted :: bool

definition initial :: form where
  "initial = \<lparr> formData = (\<lambda>_. []), errors = Map.empty, touched = Map.empty,
               showPassword = False, isSubmitted = False \<rparr>"

definition fieldKeys :: "fieldname list" where
  \<comment> \<open>\<open>Object.keys(formData)\<close>\<close>
  "fieldKeys = [Name, Email, Phone, Password]"

definition object_keys :: "(fieldname \<rightharpoonup> 'a) \<Rightarrow> fieldname list" where
  \<comment> \<open>\<open>Object.keys\<close> of an object keyed by field names; only its length is used\<close>
  "object_keys m = filter (\<lambda>k. m k \<noteq> None) [Name, Email, Phone, Password]"

definition get_error :: "(fieldname \<rightharpoonup> string option) \<Rightarrow> fieldname \<Rightarrow> string option" where
  \<comment> \<open>\<open>errors[name]\<close>: \<open>undefined\<close> for an absent key and for a key holding \<open>undefined\<close>\<close>
  "get_error m k = (case m k of None \<Rightarrow> None | Some e \<Rightarrow> e)"

definition is_touched :: "(fieldname \<rightharpoonup> bool) \<Rightarrow> fieldname \<Rightarrow> bool" where
  \<comment> \<open>truthiness of \<open>touched[name]\<close>\<close>
  "is_touched m k \<longleftrightarrow> m k = Some True"

definition truthy :: "string option \<Rightarrow> bool" where
  \<comment> \<open>truthiness of a \<open>string | undefined\<close>\<close>
  "truthy e \<longleftrightarrow> (case e of None \<Rightarrow> False | Some m \<Rightarrow> m \<noteq> [])"

definition handleChange :: "fieldname \<Rightarrow> jsstring \<Rightarrow> form \<Rightarrow> form" where
  "handleChange name val s =
     (let s' = s\<lparr>formData := (formData s)(name := val)\<rparr>
      in if is_touched (touched s) name
         then (let error = validate name val
               in s'\<lparr>errors := (errors s)(name \<mapsto> error)\<rparr>)
         else s')"

definition handleBlur :: "fieldname \<Rightarrow> jsstring \<Rightarrow> form \<Rightarrow> form" where
  "handleBlur name val s =
     (let error = validate name val
      in s\<lparr>touched := (touched s)(name \<mapsto> True), errors := (errors s)(name \<mapsto> error)\<rparr>)"

definition collectErrors :: "(fieldname \<Rightarrow> jsstring) \<Rightarrow> (fieldname \<rightharpoonup> string option)" where
  \<comment> \<open>the \<open>reduce\<close> over \<open>Object.keys(formData)\<close> shared by \<open>isFormValid\<close> and \<open>handleSubmit\<close>\<close>
  "collectErrors fd =
     fold (\<lambda>fieldKey acc.
             (let error = validate fieldKey (fd fieldKey)
              in if truthy error then acc(fieldKey \<mapsto> error) else acc))
          fieldKeys Map.empty"

definition isFormValid :: "form \<Rightarrow> bool" where
  "isFormValid s =
     (let hasAllFields = list_all (\<lambda>val. trim val \<noteq> []) (map (formData s) fieldKeys)
      in if \<not> hasAllFields then False
         else (let currentErrors = collectErrors (formData s)
               in length (object_keys currentErrors) = 0))"

definition submit_disabled :: "form \<Rightarrow> bool" where
  \<comment> \<open>the \<open>disabled\<close> attribute of the submit button\<close>
  "submit_disabled s \<longleftrightarrow> \<not> isFormValid s"

definition handleSubmit :: "form \<Rightarrow> form" where
  "handleSubmit s =
     (let allTouched = [Name \<mapsto> True, Email \<mapsto> True, Phone \<mapsto> True, Password \<mapsto> True];
          validationErrors = collectErrors (formData s);
          s' = s\<lparr>touched := allTouched, errors := validationErrors\<rparr>
      in if length (object_keys validationErrors) = 0 then s'\<lparr>isSubmitted := True\<rparr> else s')"

definition handleReset :: "form \<Rightarrow> form" where
  "handleReset s =
     s\<lparr>isSubmitted := False, formData := (\<lambda>_. []), errors := Map.empty, touched := Map.empty\<rparr>"

definition togglePassword :: "form \<Rightarrow> form" where
  \<comment> \<open>\<open>onClick\<close> of the eye button\<close>
  "togglePassword s = s\<lparr>showPassword := \<not> showPassword s\<rparr>"

definition shown_error :: "form \<Rightarrow> fieldname \<Rightarrow> string option" where
  \<comment> \<open>the \<open>error\<close> prop of a field: \<open>touched.f ? errors.f : undefined\<close>\<close>
  "shown_error s k = (if is_touched (touched s) k then get_error (errors s) k else None)"

text \<open>The events of the component, and the handler each one runs.\<close>

datatype event =
    Change fieldname jsstring
  | Blur fieldname jsstring
  | Submit
  | Reset
  | TogglePassword

fun step :: "event \<Rightarrow> form \<Rightarrow> form" where
  "step (Change name val) s = handleChange name val s"
| "step (Blur name val) s = handleBlur name val s"
| "step Submit s = handleSubmit s"
| "step Reset s = handleReset s"
| "step TogglePassword s = togglePassword s"

definition run :: "event list \<Rightarrow> form \<Rightarrow> form" where
  \<comment> \<open>events are handled one at a time, in arrival order\<close>
  "run evs s = fold step evs s"

text \<open>
  The state of the form state machine as the specification describes it: the values, the
  error messages, the touched flags and the submitted flag.  Password visibility is
  presentation state and is not part of it.
\<close>

definition form_state ::
  "form \<Rightarrow> (fieldname \<Rightarrow> jsstring) \<times> (fieldname \<rightharpoonup> string option) \<times> (fieldname \<rightharpoonup> bool) \<times> bool" where
  "form_state s = (formData s, errors s, touched s, isSubmitted s)"


text \<open>Two states of the form used as examples.\<close>

definition sample_entry :: form where
  "sample_entry = initial\<lparr>formData := (\<lambda>_. [])(Name := js ''Ann'', Email := js ''ann'')\<rparr>"

definition filled_in :: form where
  "filled_in =
     run [Change Name (js ''Ann Lee''), Change Email (js ''ann@lee.io''),
          Change Phone (js ''0123456789''), TogglePassword,
          Change Password (js ''Abcdef1!'')] initial"


section \<open>What the patterns mean\<close>

text \<open>The language of a regular expression, against which the matcher is verified.\<close>

definition conc :: "jsstring set \<Rightarrow> jsstring set \<Rightarrow> jsstring set" where
  "conc A B = {u @ v | u v. u \<in> A \<and> v \<in> B}"

inductive_set star :: "jsstring set \<Rightarrow> jsstring set" for A :: "jsstring set" where
  star_empty: "[] \<in> star A"
| star_more: "u \<in> A \<Longrightarrow> v \<in> star A \<Longrightarrow> u @ v \<in> star A"

primrec lang :: "regex \<Rightarrow> jsstring set" where
  "lang RNone = {}"
| "lang REps = {[]}"
| "lang (RCls k) = {[c] | c. class_has k c}"
| "lang (RAlt r s) = lang r \<union> lang s"
| "lang (RSeq r s) = conc (lang r) (lang s)"
| "lang (RStar r) = star (lang r)"

text \<open>
  The specification's wording of the rules, to compare the validator with.  An email part
  is one or more code units that are neither white space nor \<open>@\<close>.
\<close>

definition email_part :: "jsstring \<Rightarrow> bool" where
  "email_part w \<longleftrightarrow> w \<noteq> [] \<and> list_all (\<lambda>c. \<not> is_space c \<and> c \<noteq> 0x40) w"

definition spec_email_shape :: "jsstring \<Rightarrow> bool" where
  \<comment> \<open>part, \<open>@\<close>, part, \<open>.\<close>, part\<close>
  "spec_email_shape v \<longleftrightarrow>
     (\<exists>a b c. email_part a \<and> email_part b \<and> email_part c \<and> v = a @ [0x40] @ b @ [0x2E] @ c)"

definition spec_strip_space :: "jsstring \<Rightarrow> jsstring" where
  \<comment> \<open>the value with all white space removed\<close>
  "spec_strip_space v = filter (\<lambda>c. \<not> is_space c) v"

definition spec_phone_digits :: "jsstring \<Rightarrow> bool" where
  \<comment> \<open>10 to 15 decimal digits\<close>
  "spec_phone_digits w \<longleftrightarrow> 10 \<le> length w \<and> length w \<le> 15 \<and> list_all is_digit w"

definition spec_lowercase :: "code_unit \<Rightarrow> bool" where
  "spec_lowercase c \<longleftrightarrow> 0x61 \<le> c \<and> c \<le> 0x7A"

definition spec_uppercase :: "code_unit \<Rightarrow> bool" where
  "spec_uppercase c \<longleftrightarrow> 0x41 \<le> c \<and> c \<le> 0x5A"

definition spec_special :: "code_unit \<Rightarrow> bool" where
  "spec_special c \<longleftrightarrow> c \<in> set (js ''@$!%*?&'')"


section \<open>The matcher decides the language\<close>

lemma nil_in_conc: "[] \<in> conc A B \<longleftrightarrow> [] \<in> A \<and> [] \<in> B"
  by (auto simp: conc_def)

lemma cons_in_conc:
  "c # w \<in> conc A B \<longleftrightarrow>
     ([] \<in> A \<and> c # w \<in> B) \<or> (\<exists>u v. c # u \<in> A \<and> v \<in> B \<and> w = u @ v)"
  by (auto simp: conc_def Cons_eq_append_conv)

lemma cons_in_star_split:
  assumes "x \<in> star A" and "x = c # w"
  shows "\<exists>u v. c # u \<in> A \<and> v \<in> star A \<and> w = u @ v"
  using assms
proof (induction rule: star.induct)
  case star_empty
  then show ?case by simp
next
  case (star_more u v)
  show ?case
  proof (cases u)
    case Nil
    with star_more show ?thesis by simp
  next
    case (Cons d u')
    with star_more.prems have "d = c" and "w = u' @ v" by simp_all
    with Cons star_more.hyps show ?thesis by blast
  qed
qed

lemma cons_in_star:
  "c # w \<in> star A \<longleftrightarrow> (\<exists>u v. c # u \<in> A \<and> v \<in> star A \<and> w = u @ v)"
proof
  assume "c # w \<in> star A"
  then show "\<exists>u v. c # u \<in> A \<and> v \<in> star A \<and> w = u @ v"
    by (rule cons_in_star_split) simp
next
  assume "\<exists>u v. c # u \<in> A \<and> v \<in> star A \<and> w = u @ v"
  then obtain u v where "c # u \<in> A" "v \<in> star A" "w = u @ v" by blast
  then show "c # w \<in> star A"
    using star_more [of "c # u" A v] by simp
qed

lemma nullable_lang: "nullable r \<longleftrightarrow> [] \<in> lang r"
  by (induction r) (auto simp: nil_in_conc intro: star_empty)

lemma in_conc: "w \<in> conc A B \<longleftrightarrow> (\<exists>u v. u \<in> A \<and> v \<in> B \<and> w = u @ v)"
  by (auto simp: conc_def)

lemma lang_deriv: "w \<in> lang (deriv c r) \<longleftrightarrow> c # w \<in> lang r"
proof (induction r arbitrary: w)
  case (RSeq r s)
  have "w \<in> conc (lang (deriv c r)) (lang s) \<longleftrightarrow>
        (\<exists>u v. c # u \<in> lang r \<and> v \<in> lang s \<and> w = u @ v)"
    by (simp add: in_conc RSeq.IH)
  then show ?case
    by (auto simp add: cons_in_conc nullable_lang RSeq.IH)
next
  case (RStar r)
  have "w \<in> conc (lang (deriv c r)) (star (lang r)) \<longleftrightarrow>
        (\<exists>u v. c # u \<in> lang r \<and> v \<in> star (lang r) \<and> w = u @ v)"
    by (simp add: in_conc RStar.IH)
  then show ?case
    by (simp add: cons_in_star)
qed auto

lemma matches_lang: "matches r w \<longleftrightarrow> w \<in> lang r"
  by (induction w arbitrary: r) (simp_all add: nullable_lang lang_deriv)



section \<open>The languages of the form's patterns\<close>

lemma in_conc_cls:
  "w \<in> conc {[c] | c. P c} B \<longleftrightarrow> (\<exists>c v. P c \<and> v \<in> B \<and> w = c # v)"
proof
  assume "w \<in> conc {[c] | c. P c} B"
  then show "\<exists>c v. P c \<and> v \<in> B \<and> w = c # v"
    by (auto simp: conc_def)
next
  assume "\<exists>c v. P c \<and> v \<in> B \<and> w = c # v"
  then obtain c v where "P c" "v \<in> B" "w = [c] @ v" by auto
  then show "w \<in> conc {[c] | c. P c} B"
    unfolding conc_def by blast
qed

lemma star_cls: "star {[c] | c. P c} = {w. \<forall>c \<in> set w. P c}"
proof (rule set_eqI)
  fix w
  have "w \<in> star {[c] | c. P c} \<longleftrightarrow> (\<forall>c \<in> set w. P c)"
    by (induction w) (auto simp: cons_in_star intro: star_empty)
  then show "w \<in> star {[c] | c. P c} \<longleftrightarrow> w \<in> {w. \<forall>c \<in> set w. P c}" by simp
qed

lemma lang_RPlus_cls:
  "lang (RPlus (RCls k)) = {w. w \<noteq> [] \<and> (\<forall>c \<in> set w. class_has k c)}"
  by (auto simp: RPlus_def star_cls in_conc_cls neq_Nil_conv)

lemma lang_RExactly_cls:
  "lang (RExactly n (RCls k)) = {w. length w = n \<and> (\<forall>c \<in> set w. class_has k c)}"
proof (induction n)
  case 0
  show ?case by auto
next
  case (Suc n)
  show ?case
    by (auto simp: Suc in_conc_cls length_Suc_conv)
qed

lemma lang_RAtMost_cls:
  "lang (RAtMost n (RCls k)) = {w. length w \<le> n \<and> (\<forall>c \<in> set w. class_has k c)}"
proof (induction n)
  case 0
  show ?case by auto
next
  case (Suc n)
  have "\<exists>c u. w = c # u \<and> length u \<le> n" if "length w \<le> Suc n" "w \<noteq> []" for w :: jsstring
    using that by (cases w) auto
  then show ?case
    by (fastforce simp: Suc in_conc_cls)
qed

lemma lang_RBetween_cls:
  assumes "lo \<le> hi"
  shows "lang (RBetween lo hi (RCls k)) =
          {w. lo \<le> length w \<and> length w \<le> hi \<and> (\<forall>c \<in> set w. class_has k c)}"
proof (rule set_eqI)
  fix w
  let ?ok = "\<lambda>u. \<forall>c \<in> set u. class_has k c"
  have "w \<in> lang (RBetween lo hi (RCls k)) \<longleftrightarrow>
        (\<exists>u v. length u = lo \<and> ?ok u \<and> length v \<le> hi - lo \<and> ?ok v \<and> w = u @ v)"
    by (auto simp: RBetween_def in_conc lang_RExactly_cls lang_RAtMost_cls)
  also have "\<dots> \<longleftrightarrow> lo \<le> length w \<and> length w \<le> hi \<and> ?ok w"
  proof
    assume "\<exists>u v. length u = lo \<and> ?ok u \<and> length v \<le> hi - lo \<and> ?ok v \<and> w = u @ v"
    with assms show "lo \<le> length w \<and> length w \<le> hi \<and> ?ok w" by auto
  next
    assume a: "lo \<le> length w \<and> length w \<le> hi \<and> ?ok w"
    then have "length (take lo w) = lo" "length (drop lo w) \<le> hi - lo"
      "?ok (take lo w)" "?ok (drop lo w)" "w = take lo w @ drop lo w"
      by (auto dest: in_set_takeD in_set_dropD)
    then show "\<exists>u v. length u = lo \<and> ?ok u \<and> length v \<le> hi - lo \<and> ?ok v \<and> w = u @ v"
      by blast
  qed
  finally show "w \<in> lang (RBetween lo hi (RCls k)) \<longleftrightarrow>
      w \<in> {w. lo \<le> length w \<and> length w \<le> hi \<and> ?ok w}" by simp
qed

lemma test_within_cls: "test_within (RCls k) s \<longleftrightarrow> (\<exists>c \<in> set s. class_has k c)"
proof -
  have any: "star (lang any_unit) = UNIV"
    using star_cls [of "\<lambda>_. True"] by (simp add: any_unit_def)
  have "test_within (RCls k) s \<longleftrightarrow> s \<in> conc UNIV (conc {[c] | c. class_has k c} UNIV)"
    by (simp add: test_within_def matches_lang any)
  also have "\<dots> \<longleftrightarrow> (\<exists>u v. v \<in> conc {[c] | c. class_has k c} UNIV \<and> s = u @ v)"
    by (simp add: in_conc)
  also have "\<dots> \<longleftrightarrow> (\<exists>u c v. class_has k c \<and> s = u @ c # v)"
    unfolding in_conc_cls by auto
  also have "\<dots> \<longleftrightarrow> (\<exists>c \<in> set s. class_has k c)"
    by (metis in_set_conv_decomp)
  finally show ?thesis .
qed

lemma replace_space_runs_filter: "replace_space_runs s = filter (\<lambda>c. \<not> is_space c) s"
proof (induction s rule: replace_space_runs.induct)
  case 1
  show ?case by simp
next
  case (2 c cs)
  have "filter (\<lambda>c. \<not> is_space c) (dropWhile is_space cs) = filter (\<lambda>c. \<not> is_space c) cs"
    by (induction cs) auto
  with 2 show ?case by simp
qed


lemma class_has_not_space_or_at: "class_has not_space_or_at c \<longleftrightarrow> \<not> is_space c \<and> c \<noteq> 0x40"
  by (simp add: not_space_or_at_def)

lemma lang_lit: "lang (RCls (OneOf [Lit a])) = {[a]}"
  by auto

lemma in_conc_single: "w \<in> conc {[a]} B \<longleftrightarrow> (\<exists>v. v \<in> B \<and> w = a # v)"
  using in_conc_cls [of w "\<lambda>c. c = a" B] by simp

lemma lang_email_part: "lang (RPlus (RCls not_space_or_at)) = {w. email_part w}"
  by (auto simp: lang_RPlus_cls class_has_not_space_or_at email_part_def list_all_iff)

lemma test_whole_email: "test_whole email_re v \<longleftrightarrow> spec_email_shape v"
proof -
  have "test_whole email_re v \<longleftrightarrow>
        v \<in> conc {w. email_part w} (conc {[0x40]} (conc {w. email_part w}
              (conc {[0x2E]} {w. email_part w})))"
    by (simp add: test_whole_def matches_lang email_re_def lang_email_part)
  also have "\<dots> \<longleftrightarrow> spec_email_shape v"
    by (simp add: in_conc in_conc_single spec_email_shape_def) blast
  finally show ?thesis .
qed

lemma test_whole_phone: "test_whole phone_re w \<longleftrightarrow> spec_phone_digits w"
  by (simp add: test_whole_def matches_lang phone_re_def lang_RBetween_cls
      spec_phone_digits_def list_all_iff)

lemma test_within_lower: "test_within (RCls lower_cls) s \<longleftrightarrow> list_ex spec_lowercase s"
  by (simp add: test_within_cls lower_cls_def spec_lowercase_def list_ex_iff)

lemma test_within_upper: "test_within (RCls upper_cls) s \<longleftrightarrow> list_ex spec_uppercase s"
  by (simp add: test_within_cls upper_cls_def spec_uppercase_def list_ex_iff)

lemma test_within_digit: "test_within (RCls digit_cls) s \<longleftrightarrow> list_ex is_digit s"
  by (simp add: test_within_cls digit_cls_def list_ex_iff)

lemma test_within_special: "test_within (RCls special_cls) s \<longleftrightarrow> list_ex spec_special s"
  by (simp add: test_within_cls special_cls_def spec_special_def js_def list_ex_iff)


section \<open>The validation rules\<close>

lemma password_sample_accepted: "validate Password (js ''Abcdef1!'') = None"
  by code_simp

lemma password_sample_no_upper:
  "validate Password (js ''abcdefg1'') = Some ''Must contain an uppercase letter.''"
  by code_simp

lemma validate_password_long:
  assumes "8 \<le> length val"
  shows "validate Password val =
      (if \<not> list_ex spec_lowercase val then Some ''Must contain a lowercase letter.''
       else if \<not> list_ex spec_uppercase val then Some ''Must contain an uppercase letter.''
       else if \<not> list_ex is_digit val then Some ''Must contain a number.''
       else if \<not> list_ex spec_special val
         then Some ''Must contain a special character (@$!%*?&).''
       else None)"
proof -
  from assms have "val \<noteq> []" "\<not> length val < 8" by auto
  then show ?thesis
    by (simp add: test_within_lower test_within_upper test_within_digit test_within_special)
qed

text \<open>
  Claim C3.  For a non-empty password of at least 8 code units the validator looks for a
  lowercase letter (\<open>a\<close> to \<open>z\<close>), an uppercase letter (\<open>A\<close> to \<open>Z\<close>), a decimal digit and
  one of \<open>@$!%*?&\<close>, in this order, and returns the message of the first class that is
  missing, or no error when all four occur.  \<open>Abcdef1!\<close> is accepted, and \<open>abcdefg1\<close> gets
  the missing-uppercase message, not the missing-special one.
\<close>

theorem validate_password_classes:
  "(val \<noteq> [] \<and> 8 \<le> length val \<longrightarrow>
      validate Password val =
        (if \<not> list_ex spec_lowercase val then Some ''Must contain a lowercase letter.''
         else if \<not> list_ex spec_uppercase val then Some ''Must contain an uppercase letter.''
         else if \<not> list_ex is_digit val then Some ''Must contain a number.''
         else if \<not> list_ex spec_special val
           then Some ''Must contain a special character (@$!%*?&).''
         else None))
   \<and> validate Password (js ''Abcdef1!'') = None
   \<and> validate Password (js ''abcdefg1'') = Some ''Must contain an uppercase letter.''"
  using validate_password_long [of val] password_sample_accepted password_sample_no_upper
  by blast

text \<open>
  The rule at \<open>Passw0rd\<close>: eight code units with a lowercase letter, an uppercase letter
  and a digit, but no special character.
\<close>

theorem validate_password_classes_witness:
  "js ''Passw0rd'' \<noteq> [] \<and> 8 \<le> length (js ''Passw0rd'')
   \<and> validate Password (js ''Passw0rd'') = Some ''Must contain a special character (@$!%*?&).''"
proof -
  have h: "js ''Passw0rd'' \<noteq> [] \<and> 8 \<le> length (js ''Passw0rd'')"
    by (simp add: js_def)
  have cls: "list_ex spec_lowercase (js ''Passw0rd'')" "list_ex spec_uppercase (js ''Passw0rd'')"
    "list_ex is_digit (js ''Passw0rd'')" "\<not> list_ex spec_special (js ''Passw0rd'')"
    by (simp_all add: js_def spec_lowercase_def spec_uppercase_def is_digit_def spec_special_def)
  from validate_password_classes [of "js ''Passw0rd''"] h
  have "validate Password (js ''Passw0rd'') =
        (if \<not> list_ex spec_lowercase (js ''Passw0rd'') then Some ''Must contain a lowercase letter.''
         else if \<not> list_ex spec_uppercase (js ''Passw0rd'') then Some ''Must contain an uppercase letter.''
         else if \<not> list_ex is_digit (js ''Passw0rd'') then Some ''Must contain a number.''
         else if \<not> list_ex spec_special (js ''Passw0rd'')
           then Some ''Must contain a special character (@$!%*?&).''
         else None)"
    by blast
  with h cls show ?thesis
    by (simp only: simp_thms if_True if_False)
qed

lemma email_sample_accepted: "validate Email (js ''a@b.c'') = None"
  by code_simp

lemma email_sample_rejected: "validate Email (js ''abc'') = Some ''Invalid email format.''"
  by code_simp

text \<open>
  Claim C4.  For every string the email rule returns the required message on the empty
  string; otherwise it returns no error exactly when the string is one or more code units
  that are neither white space nor \<open>@\<close>, then \<open>@\<close>, then one or more such code units, then
  a dot, then one or more such code units, and the format message in every other case.
  \<open>a@b.c\<close> is accepted and \<open>abc\<close> is rejected.
\<close>

theorem validate_email_shape:
  "validate Email v =
     (if v = [] then Some ''Email is required.''
      else if spec_email_shape v then None
      else Some ''Invalid email format.'')
   \<and> validate Email (js ''a@b.c'') = None
   \<and> validate Email (js ''abc'') = Some ''Invalid email format.''"
  using email_sample_accepted email_sample_rejected
  by (simp add: test_whole_email del: validate.simps) (simp add: test_whole_email)

text \<open>
  The rule at \<open>me@x.org\<close>, split as \<open>me\<close>, \<open>x\<close> and \<open>org\<close>.
\<close>

theorem validate_email_shape_witness:
  "spec_email_shape (js ''me@x.org'') \<and> validate Email (js ''me@x.org'') = None"
proof -
  have "js ''me@x.org'' = js ''me'' @ [0x40] @ js ''x'' @ [0x2E] @ js ''org''"
    by (simp add: js_def)
  moreover have "email_part (js ''me'')" "email_part (js ''x'')" "email_part (js ''org'')"
    by (simp_all add: email_part_def js_def is_space_def)
  ultimately have shape: "spec_email_shape (js ''me@x.org'')"
    unfolding spec_email_shape_def by blast
  have "js ''me@x.org'' \<noteq> []" by (simp add: js_def)
  with shape validate_email_shape [of "js ''me@x.org''"] show ?thesis
    by (simp only: simp_thms if_True if_False)
qed

lemma phone_sample_short: "validate Phone (js ''123'') = Some ''Phone must be 10 to 15 digits.''"
  by code_simp

lemma phone_sample_plain: "validate Phone (js ''1234567890'') = None"
  by code_simp

lemma phone_sample_spaced: "validate Phone (js ''123 456 7890'') = None"
  by code_simp

text \<open>
  Claim C5.  For every string the phone rule returns the required message on the empty
  string; otherwise it returns no error exactly when the string with all white space
  removed is 10 to 15 decimal digits, and the digit-count message in every other case.
  \<open>123\<close> gets the digit-count message; \<open>1234567890\<close> and \<open>123 456 7890\<close> are accepted.
\<close>

theorem validate_phone_digits:
  "validate Phone v =
     (if v = [] then Some ''Phone number is required.''
      else if spec_phone_digits (spec_strip_space v) then None
      else Some ''Phone must be 10 to 15 digits.'')
   \<and> validate Phone (js ''123'') = Some ''Phone must be 10 to 15 digits.''
   \<and> validate Phone (js ''1234567890'') = None
   \<and> validate Phone (js ''123 456 7890'') = None"
  using phone_sample_short phone_sample_plain phone_sample_spaced
  by (simp add: test_whole_phone replace_space_runs_filter spec_strip_space_def del: validate.simps)
     (simp add: test_whole_phone replace_space_runs_filter spec_strip_space_def)

text \<open>
  The rule at \<open>+1 234 567 8901\<close>: the plus sign is not a digit.
\<close>

theorem validate_phone_digits_witness:
  "spec_phone_digits (spec_strip_space (js ''+1 234 567 8901'')) = False
   \<and> validate Phone (js ''+1 234 567 8901'') = Some ''Phone must be 10 to 15 digits.''"
proof -
  have a: "js ''+1 234 567 8901'' \<noteq> []" by (simp add: js_def)
  have b: "\<not> spec_phone_digits (spec_strip_space (js ''+1 234 567 8901''))"
    by (simp add: js_def spec_phone_digits_def spec_strip_space_def is_space_def is_digit_def)
  from a b validate_phone_digits [of "js ''+1 234 567 8901''"] show ?thesis
    by (simp only: simp_thms if_True if_False)
qed

text \<open>
  Claim C6.  On the empty string each of the four fields gets its own required message.
\<close>

theorem validate_empty_required:
  "validate Name [] = Some ''Name is required.''
   \<and> validate Email [] = Some ''Email is required.''
   \<and> validate Phone [] = Some ''Phone number is required.''
   \<and> validate Password [] = Some ''Password is required.''"
  by (simp add: trim_def)


section \<open>The transitions of the form\<close>

lemma validate_truthy: "truthy (validate k v) \<longleftrightarrow> validate k v \<noteq> None"
  by (cases k) (simp_all add: truthy_def)

lemma collectErrors_apply:
  "collectErrors fd k = (if validate k (fd k) = None then None else Some (validate k (fd k)))"
  by (cases k) (simp_all add: collectErrors_def fieldKeys_def Let_def validate_truthy
      del: validate.simps)

lemma all_fields: "(\<forall>k. P k) \<longleftrightarrow> P Name \<and> P Email \<and> P Phone \<and> P Password"
proof
  assume "P Name \<and> P Email \<and> P Phone \<and> P Password"
  then show "\<forall>k. P k" by (metis fieldname.exhaust)
qed simp

lemma no_object_keys: "object_keys m = [] \<longleftrightarrow> (\<forall>k. m k = None)"
  by (simp add: object_keys_def all_fields filter_empty_conv)

lemma no_collected_errors:
  "object_keys (collectErrors fd) = [] \<longleftrightarrow> (\<forall>k. validate k (fd k) = None)"
  by (simp add: no_object_keys collectErrors_apply del: validate.simps)

lemma formData_handleSubmit: "formData (handleSubmit s) = formData s"
  by (simp add: handleSubmit_def Let_def)

lemma touched_handleSubmit: "touched (handleSubmit s) k = Some True"
  by (cases k) (simp_all add: handleSubmit_def Let_def)

lemma errors_handleSubmit: "errors (handleSubmit s) = collectErrors (formData s)"
  by (simp add: handleSubmit_def Let_def)

lemma isSubmitted_handleSubmit:
  "isSubmitted (handleSubmit s) \<longleftrightarrow> isSubmitted s \<or> (\<forall>k. validate k (formData s k) = None)"
  by (auto simp: handleSubmit_def Let_def no_collected_errors simp del: validate.simps)

text \<open>
  Claim C1.  Submit marks all four fields touched and replaces the error map by the
  messages that the validator gives for the current values, so the message of every
  invalid field is in the error map and is shown, whether or not that field was ever
  blurred.  The form, and with it the submit handler, exists only while the state is
  editing; from there submit moves to submitted exactly when the recomputed error map is
  empty, and if some field is invalid the state stays editing.
\<close>

theorem handleSubmit_editing:
  "(\<forall>k. touched (handleSubmit s) k = Some True)
   \<and> (\<forall>k. errors (handleSubmit s) k =
          (if validate k (formData s k) = None then None else Some (validate k (formData s k))))
   \<and> (\<forall>k msg. validate k (formData s k) = Some msg \<longrightarrow>
          errors (handleSubmit s) k = Some (Some msg)
          \<and> shown_error (handleSubmit s) k = Some msg)
   \<and> (\<not> isSubmitted s \<longrightarrow>
          (isSubmitted (handleSubmit s) \<longleftrightarrow> dom (errors (handleSubmit s)) = {})
          \<and> ((\<exists>k. validate k (formData s k) \<noteq> None) \<longrightarrow> \<not> isSubmitted (handleSubmit s)))"
proof -
  have "dom (errors (handleSubmit s)) = {} \<longleftrightarrow> (\<forall>k. validate k (formData s k) = None)"
    by (auto simp: errors_handleSubmit collectErrors_apply dom_def simp del: validate.simps)
  then show ?thesis
    by (auto simp: touched_handleSubmit errors_handleSubmit collectErrors_apply
        isSubmitted_handleSubmit shown_error_def is_touched_def get_error_def
        simp del: validate.simps)
qed

text \<open>
  Submit on a form where only a name and a malformed email were typed, and nothing was
  blurred.
\<close>

theorem handleSubmit_editing_witness:
  "\<not> isSubmitted sample_entry
   \<and> validate Email (formData sample_entry Email) = Some ''Invalid email format.''
   \<and> touched (handleSubmit sample_entry) Phone = Some True
   \<and> \<not> isSubmitted (handleSubmit sample_entry)
   \<and> dom (errors (handleSubmit sample_entry)) \<noteq> {}
   \<and> errors (handleSubmit sample_entry) Name = None
   \<and> shown_error (handleSubmit sample_entry) Email = Some ''Invalid email format.''"
proof -
  have ed: "\<not> isSubmitted sample_entry"
    by (simp add: sample_entry_def initial_def)
  have n: "validate Name (formData sample_entry Name) = None"
    by (simp add: sample_entry_def js_def trim_def is_space_def)
  have e: "validate Email (formData sample_entry Email) = Some ''Invalid email format.''"
    unfolding sample_entry_def by code_simp
  note spec = handleSubmit_editing [of sample_entry]
  from spec have t: "touched (handleSubmit sample_entry) Phone = Some True"
    by blast
  from spec n have en: "errors (handleSubmit sample_entry) Name = None"
    by simp
  from spec e have sh: "shown_error (handleSubmit sample_entry) Email = Some ''Invalid email format.''"
    by blast
  from e have "\<exists>k. validate k (formData sample_entry k) \<noteq> None"
    by (intro exI [of _ Email]) simp
  with spec ed have st: "\<not> isSubmitted (handleSubmit sample_entry)"
    by blast
  with spec ed have "dom (errors (handleSubmit sample_entry)) \<noteq> {}"
    by blast
  with ed e t st en sh show ?thesis
    by blast
qed

lemma isFormValid_iff:
  "isFormValid s \<longleftrightarrow>
     (\<forall>k. trim (formData s k) \<noteq> []) \<and> (\<forall>k. validate k (formData s k) = None)"
proof -
  have "list_all (\<lambda>val. trim val \<noteq> []) (map (formData s) fieldKeys) \<longleftrightarrow>
        (\<forall>k. trim (formData s k) \<noteq> [])"
    by (simp add: fieldKeys_def all_fields [of "\<lambda>k. trim (formData s k) \<noteq> []"])
  then show ?thesis
    by (auto simp: isFormValid_def Let_def no_collected_errors simp del: validate.simps)
qed

text \<open>
  Claim C2.  The submit button is enabled only when the validator returns no error for
  each of the four fields and each of the four values is non-blank after trimming; in a
  state where some value is blank after trimming or some field fails validation, the
  button is disabled.
\<close>

theorem submit_enabled_only_when_valid:
  "(\<not> submit_disabled s \<longleftrightarrow>
      (\<forall>k. validate k (formData s k) = None) \<and> (\<forall>k. trim (formData s k) \<noteq> []))
   \<and> ((\<exists>k. trim (formData s k) = [] \<or> validate k (formData s k) \<noteq> None) \<longrightarrow>
        submit_disabled s)"
  using isFormValid_iff [of s] by (auto simp: submit_disabled_def simp del: validate.simps)

text \<open>
  With the phone number left empty the button is disabled.
\<close>

theorem submit_enabled_only_when_valid_witness:
  "trim (formData sample_entry Phone) = [] \<and> submit_disabled sample_entry"
proof -
  have "trim (formData sample_entry Phone) = []"
    by (simp add: sample_entry_def trim_def)
  with submit_enabled_only_when_valid [of sample_entry] show ?thesis
    by blast
qed

text \<open>
  Claim C7.  A change of a field stores the new value for that field and leaves the other
  values, all touched flags, the submitted flag and the password visibility as they were.
  If the field is not touched the error map is unchanged as well, so no error of that field
  is shown; if the field is touched, only its entry in the error map changes, to the
  validator's result for the new value.
\<close>

theorem handleChange_frame:
  "formData (handleChange name val s) = (formData s)(name := val)
   \<and> touched (handleChange name val s) = touched s
   \<and> isSubmitted (handleChange name val s) = isSubmitted s
   \<and> showPassword (handleChange name val s) = showPassword s
   \<and> (\<not> is_touched (touched s) name \<longrightarrow>
        errors (handleChange name val s) = errors s
        \<and> shown_error (handleChange name val s) name = None)
   \<and> (is_touched (touched s) name \<longrightarrow>
        errors (handleChange name val s) = (errors s)(name \<mapsto> validate name val))"
  by (simp add: handleChange_def Let_def shown_error_def del: validate.simps)

text \<open>
  A change of the email field before and after that field was blurred.
\<close>

theorem handleChange_frame_witness:
  "\<not> is_touched (touched initial) Email
   \<and> errors (handleChange Email (js ''abc'') initial) = Map.empty
   \<and> is_touched (touched (handleBlur Email [] initial)) Email
   \<and> errors (handleChange Email (js ''abc'') (handleBlur Email [] initial)) Email
       = Some (Some ''Invalid email format.'')"
proof -
  have u: "\<not> is_touched (touched initial) Email"
    by (simp add: initial_def is_touched_def)
  have t: "is_touched (touched (handleBlur Email [] initial)) Email"
    by (simp add: handleBlur_def is_touched_def)
  have e: "validate Email (js ''abc'') = Some ''Invalid email format.''"
    by code_simp
  from u handleChange_frame [of Email "js ''abc''" initial]
  have "errors (handleChange Email (js ''abc'') initial) = Map.empty"
    by (simp add: initial_def del: validate.simps)
  moreover from t handleChange_frame [of Email "js ''abc''" "handleBlur Email [] initial"]
  have "errors (handleChange Email (js ''abc'') (handleBlur Email [] initial)) Email
        = Some (validate Email (js ''abc''))"
    by (simp del: validate.simps)
  ultimately show ?thesis using u t e
    by (simp del: validate.simps)
qed

lemma step_keeps_touched:
  assumes "ev \<noteq> Reset" and "touched s name = Some True"
  shows "touched (step ev s) name = Some True"
  using assms
  by (cases ev)
     (simp_all add: handleChange_def handleBlur_def togglePassword_def touched_handleSubmit
       Let_def del: validate.simps)

lemma run_keeps_touched:
  assumes "Reset \<notin> set evs" and "touched s name = Some True"
  shows "touched (run evs s) name = Some True"
  using assms
proof (induction evs arbitrary: s)
  case Nil
  then show ?case by (simp add: run_def)
next
  case (Cons ev evs)
  from Cons.prems have "touched (step ev s) name = Some True"
    by (intro step_keeps_touched) auto
  with Cons show ?case by (simp add: run_def)
qed

text \<open>
  Claim C8.  A blur of a field marks it touched and sets its error to the validator's
  result for the current value, which is then shown.  No event other than reset clears the
  touched flag of a touched field.  Hence after a blur of a field and any events without a
  reset, a change of that field recomputes its error from the new value and shows it.
\<close>

theorem blur_touches_for_good:
  "touched (handleBlur name val s) name = Some True
   \<and> errors (handleBlur name val s) name = Some (validate name val)
   \<and> shown_error (handleBlur name val s) name = validate name val
   \<and> (ev \<noteq> Reset \<and> touched s name = Some True \<longrightarrow> touched (step ev s) name = Some True)
   \<and> (Reset \<notin> set evs \<longrightarrow>
        errors (handleChange name val' (run evs (handleBlur name val s))) name
          = Some (validate name val')
        \<and> shown_error (handleChange name val' (run evs (handleBlur name val s))) name
          = validate name val')"
proof -
  have b: "touched (handleBlur name val s) name = Some True"
    by (simp add: handleBlur_def Let_def del: validate.simps)
  have live: "errors (handleChange name val' t) name = Some (validate name val')
      \<and> shown_error (handleChange name val' t) name = validate name val'"
    if "touched t name = Some True" for t
    using that
    by (simp add: handleChange_def Let_def is_touched_def shown_error_def get_error_def
        del: validate.simps)
  show ?thesis
    using b step_keeps_touched [of ev s name] live [OF run_keeps_touched [OF _ b]]
    by (simp add: handleBlur_def Let_def shown_error_def is_touched_def get_error_def
        del: validate.simps)
qed

text \<open>
  The email field is blurred with a malformed address; after other events the address is
  corrected and the error disappears.
\<close>

theorem blur_touches_for_good_witness:
  "Submit \<noteq> Reset
   \<and> touched (handleBlur Email (js ''abc'') initial) Email = Some True
   \<and> touched (step Submit (handleBlur Email (js ''abc'') initial)) Email = Some True
   \<and> Reset \<notin> set [Change Name (js ''Ann''), TogglePassword, Submit]
   \<and> shown_error (handleBlur Email (js ''abc'') initial) Email = Some ''Invalid email format.''
   \<and> shown_error (handleChange Email (js ''a@b.c'')
        (run [Change Name (js ''Ann''), TogglePassword, Submit]
          (handleBlur Email (js ''abc'') initial))) Email = None"
proof -
  have e1: "validate Email (js ''abc'') = Some ''Invalid email format.''"
    by code_simp
  have e2: "validate Email (js ''a@b.c'') = None"
    by code_simp
  have r: "Reset \<notin> set [Change Name (js ''Ann''), TogglePassword, Submit]"
    by simp
  note a = blur_touches_for_good [of Email "js ''abc''" initial Submit
      "[Change Name (js ''Ann''), TogglePassword, Submit]" "js ''a@b.c''"]
  note b = blur_touches_for_good [of Email "js ''abc''" "handleBlur Email (js ''abc'') initial"
      Submit]
  from a have t: "touched (handleBlur Email (js ''abc'') initial) Email = Some True"
    by blast
  with b have t': "touched (step Submit (handleBlur Email (js ''abc'') initial)) Email = Some True"
    by blast
  from a e1 have s1: "shown_error (handleBlur Email (js ''abc'') initial) Email
      = Some ''Invalid email format.''"
    by simp
  from a r e2 have s2: "shown_error (handleChange Email (js ''a@b.c'')
        (run [Change Name (js ''Ann''), TogglePassword, Submit]
          (handleBlur Email (js ''abc'') initial))) Email = None"
    by simp
  from t t' r s1 s2 show ?thesis
    by simp
qed

text \<open>
  Claim C9.  Reset sets all four values to the empty string, empties the error map and the
  touched flags, and returns to editing: the state of the form state machine is the
  initial one.  Reset does not write the password visibility, which stays as it was.
\<close>

theorem handleReset_initial:
  "formData (handleReset s) = (\<lambda>_. [])
   \<and> errors (handleReset s) = Map.empty
   \<and> touched (handleReset s) = Map.empty
   \<and> \<not> isSubmitted (handleReset s)
   \<and> form_state (handleReset s) = form_state initial
   \<and> handleReset s = initial\<lparr>showPassword := showPassword s\<rparr>"
  by (simp add: handleReset_def initial_def form_state_def)

lemma filled_in_submits: "isSubmitted (handleSubmit filled_in) \<and> showPassword (handleSubmit filled_in)"
  unfolding filled_in_def by code_simp

text \<open>
  Reset after a successful submit, made with the password visible.
\<close>

theorem handleReset_initial_witness:
  "isSubmitted (handleSubmit filled_in)
   \<and> form_state (handleReset (handleSubmit filled_in)) = form_state initial
   \<and> formData (handleReset (handleSubmit filled_in)) Password = []
   \<and> showPassword (handleReset (handleSubmit filled_in))"
proof -
  note r = handleReset_initial [of "handleSubmit filled_in"]
  from r have a: "form_state (handleReset (handleSubmit filled_in)) = form_state initial"
    by blast
  from r have "formData (handleReset (handleSubmit filled_in)) = (\<lambda>_. [])"
    by blast
  then have b: "formData (handleReset (handleSubmit filled_in)) Password = []"
    by simp
  from r have "handleReset (handleSubmit filled_in)
      = initial\<lparr>showPassword := showPassword (handleSubmit filled_in)\<rparr>"
    by blast
  then have c: "showPassword (handleReset (handleSubmit filled_in))
      = showPassword (handleSubmit filled_in)"
    by simp
  from a b c filled_in_submits show ?thesis
    by blast
qed

text \<open>
  Claim C10.  Submit never changes the values.  A failed submit changes the touched flags
  and the error map only.
\<close>

theorem handleSubmit_keeps_values:
  "formData (handleSubmit s) = formData s
   \<and> ((\<exists>k. validate k (formData s k) \<noteq> None) \<longrightarrow>
        handleSubmit s = s\<lparr>touched := touched (handleSubmit s), errors := errors (handleSubmit s)\<rparr>)"
  by (auto simp: handleSubmit_def Let_def no_collected_errors simp del: validate.simps)


text \<open>
  A failed submit keeps the name that was typed.
\<close>

theorem handleSubmit_keeps_values_witness:
  "validate Email (formData sample_entry Email) \<noteq> None
   \<and> formData (handleSubmit sample_entry) Name = js ''Ann''
   \<and> isSubmitted (handleSubmit sample_entry) = isSubmitted sample_entry
   \<and> showPassword (handleSubmit sample_entry) = showPassword sample_entry"
proof -
  have e: "validate Email (formData sample_entry Email) \<noteq> None"
    unfolding sample_entry_def by code_simp
  then have "\<exists>k. validate k (formData sample_entry k) \<noteq> None" ..
  with handleSubmit_keeps_values [of sample_entry]
  have v: "formData (handleSubmit sample_entry) = formData sample_entry"
    and f: "handleSubmit sample_entry
      = sample_entry\<lparr>touched := touched (handleSubmit sample_entry),
          errors := errors (handleSubmit sample_entry)\<rparr>"
    by blast+
  have "isSubmitted (handleSubmit sample_entry) = isSubmitted sample_entry"
    "showPassword (handleSubmit sample_entry) = showPassword sample_entry"
    by (subst f, simp)+
  with e v show ?thesis
    by (simp add: sample_entry_def del: validate.simps)
qed

end
